theory Spec2Isabelle
  imports Complex_Main
begin

section \<open>Numbers\<close>

text \<open>
  JavaScript numbers are modelled as exact reals: rounding is ignored, and the samples of a
  buffer, the sample rate and the tempo are finite numbers. Where the source can produce
  a value that is not a finite number (the quotient \<open>0 / 0\<close>), the model has a branch of
  its own for it.
\<close>

section \<open>PitchDetector (pitch-detector.js)\<close>

text \<open>\<open>SIZE = buffer.length\<close> and \<open>MAX_SAMPLES = Math.floor(SIZE / 2)\<close>.\<close>

definition SIZE :: "real list \<Rightarrow> nat" where
  "SIZE buffer = length buffer"

definition MAX_SAMPLES :: "real list \<Rightarrow> nat" where
  "MAX_SAMPLES buffer = SIZE buffer div 2"

text \<open>
  The first loop: \<open>for (i = 0; i < SIZE; i++) { val = buffer[i]; rms += val * val }\<close>,
  starting from \<open>rms = 0\<close>.
\<close>

definition sum_squares :: "real list \<Rightarrow> real" where
  "sum_squares buffer = foldl (\<lambda>rms val. rms + val * val) 0 buffer"

text \<open>
  \<open>rms = Math.sqrt(rms / SIZE)\<close>. For the empty buffer the sum is \<open>0\<close> and \<open>SIZE\<close> is
  \<open>0\<close>: the quotient \<open>0 / 0\<close> is NaN, and so is its square root. \<open>None\<close> is NaN.
\<close>

definition rms :: "real list \<Rightarrow> real option" where
  "rms buffer =
     (if SIZE buffer = 0 then None
      else Some (sqrt (sum_squares buffer / real (SIZE buffer))))"

text \<open>The test \<open>rms < 0.01\<close>; every comparison with NaN is false.\<close>

definition too_quiet :: "real list \<Rightarrow> bool" where
  "too_quiet buffer = (case rms buffer of None \<Rightarrow> False | Some r \<Rightarrow> r < 0.01)"

text \<open>
  The inner loop at one offset:
  \<open>for (i = 0; i < MAX_SAMPLES; i++) correlation += Math.abs(buffer[i] - buffer[i + offset])\<close>
  starting from \<open>0\<close>. The outer loop runs it for \<open>1 \<le> offset < MAX_SAMPLES\<close> only, where
  \<open>i + offset < SIZE\<close>: no read is out of range.
\<close>

definition abs_diff_sum :: "real list \<Rightarrow> nat \<Rightarrow> real" where
  "abs_diff_sum buffer offset =
     foldl (\<lambda>correlation i. correlation + \<bar>buffer ! i - buffer ! (i + offset)\<bar>) 0
       [0..<MAX_SAMPLES buffer]"

text \<open>\<open>correlation = 1 - (correlation / MAX_SAMPLES)\<close>.\<close>

definition correlation :: "real list \<Rightarrow> nat \<Rightarrow> real" where
  "correlation buffer offset =
     1 - abs_diff_sum buffer offset / real (MAX_SAMPLES buffer)"

text \<open>
  The outer loop \<open>for (offset = 1; offset < MAX_SAMPLES; offset++)\<close>, with the loop
  variables \<open>lastCorrelation\<close>, \<open>bestCorrelation\<close> and \<open>bestOffset\<close> as arguments; the
  result is the final \<open>bestOffset\<close> (\<open>-1\<close> when no offset qualified).
\<close>

function scan :: "real list \<Rightarrow> nat \<Rightarrow> real \<Rightarrow> real \<Rightarrow> int \<Rightarrow> int" where
  "scan buffer offset lastCorrelation bestCorrelation bestOffset =
     (if offset < MAX_SAMPLES buffer then
        (if correlation buffer offset > 0.9
            \<and> correlation buffer offset > lastCorrelation
            \<and> correlation buffer offset - lastCorrelation > bestCorrelation
         then scan buffer (offset + 1) (correlation buffer offset)
                (correlation buffer offset - lastCorrelation) (int offset)
         else scan buffer (offset + 1) (correlation buffer offset)
                bestCorrelation bestOffset)
      else bestOffset)"
  by pat_completeness auto
termination
  by (relation "measure (\<lambda>(buffer, offset, l, b, k). MAX_SAMPLES buffer - offset)") auto

text \<open>The loop from its initial values: \<open>offset = 1\<close>, \<open>lastCorrelation = 1\<close>,
  \<open>bestCorrelation = 0\<close>, \<open>bestOffset = -1\<close>.\<close>

definition findBestOffset :: "real list \<Rightarrow> int" where
  "findBestOffset buffer = scan buffer 1 1 0 (- 1)"

text \<open>\<open>autoCorrelate(buffer)\<close>: the frequency in Hz, or \<open>-1\<close> if no pitch was detected.\<close>

definition autoCorrelate :: "real \<Rightarrow> real list \<Rightarrow> real" where
  "autoCorrelate sampleRate buffer =
     (if too_quiet buffer then - 1
      else if findBestOffset buffer = - 1 then - 1
      else sampleRate / real_of_int (findBestOffset buffer))"

text \<open>\<open>detectPitch(dataArray)\<close>: the frequency, or \<open>null\<close> (\<open>None\<close>).\<close>

definition detectPitch :: "real \<Rightarrow> real list \<Rightarrow> real option" where
  "detectPitch sampleRate dataArray =
     (let frequency = autoCorrelate sampleRate dataArray in
      if frequency > 0 \<and> frequency \<ge> 60 \<and> frequency \<le> 1000 then Some frequency
      else None)"

text \<open>
  Every divisor \<open>autoCorrelate\<close> divides by, in the order of execution: \<open>SIZE\<close> (line 27),
  \<open>MAX_SAMPLES\<close> once for each offset the outer loop visits (line 41), and the chosen
  offset (line 57).
\<close>

definition divisors :: "real list \<Rightarrow> real list" where
  "divisors buffer =
     real (SIZE buffer) #
     (if too_quiet buffer then []
      else map (\<lambda>offset. real (MAX_SAMPLES buffer)) [1..<MAX_SAMPLES buffer] @
           (if findBestOffset buffer = - 1 then []
            else [real_of_int (findBestOffset buffer)]))"


section \<open>AudioProcessor (audio-processor.js)\<close>

text \<open>
  The objects the processor holds (audio context, analyser, microphone source, gain node,
  media stream) are references, modelled as handles; \<open>None\<close> is \<open>null\<close>. The pitch
  detector is modelled by its sample rate. \<open>animationFrame\<close> is the number
  \<open>requestAnimationFrame\<close> returned, or \<open>null\<close>.
\<close>

record AudioProcessor =
  audioContext :: "nat option"
  analyser :: "nat option"
  microphone :: "nat option"
  gainNode :: "nat option"
  pitchDetector :: "real option"
  animationFrame :: "nat option"
  stream :: "nat option"
  monitoringEnabled :: bool
  smoothedFrequency :: "real option"
  smoothingFactor :: real

text \<open>The constructor.\<close>

definition AudioProcessor_new :: AudioProcessor where
  "AudioProcessor_new =
     \<lparr>audioContext = None, analyser = None, microphone = None, gainNode = None,
      pitchDetector = None, animationFrame = None, stream = None,
      monitoringEnabled = False, smoothedFrequency = None, smoothingFactor = 0.3\<rparr>"

text \<open>
  Truthiness of a value that is a number or \<open>null\<close>, as \<open>if (frequency)\<close> and
  \<open>if (this.animationFrame)\<close> test it: \<open>null\<close> and \<open>0\<close> are falsy.
\<close>

definition truthy :: "'a::zero option \<Rightarrow> bool" where
  "truthy v = (case v of None \<Rightarrow> False | Some x \<Rightarrow> x \<noteq> 0)"

text \<open>
  The block that applies the smoothing in \<open>detectPitchLoop\<close> (lines 90 to 96): the new value of
  \<open>smoothedFrequency\<close>.
\<close>

definition smooth :: "real option \<Rightarrow> real \<Rightarrow> real \<Rightarrow> real" where
  "smooth smoothed factor frequency =
     (case smoothed of
        None \<Rightarrow> frequency
      | Some s \<Rightarrow> s * (1 - factor) + frequency * factor)"

text \<open>
  Lines 88 to 104 of \<open>detect\<close>, given the result \<open>frequency\<close> of \<open>detectPitch\<close>: the
  processor afterwards, and the value passed to \<open>onPitchUpdate\<close>.
\<close>

definition publish :: "real option \<Rightarrow> AudioProcessor \<Rightarrow> AudioProcessor \<times> real option" where
  "publish frequency p =
     (case frequency of
        Some f \<Rightarrow>
          (if truthy frequency then
             (let s = smooth (smoothedFrequency p) (smoothingFactor p) f
              in (p\<lparr>smoothedFrequency := Some s\<rparr>, Some s))
           else (p\<lparr>smoothedFrequency := None\<rparr>, None))
      | None \<Rightarrow> (p\<lparr>smoothedFrequency := None\<rparr>, None))"

text \<open>The calls \<open>stop\<close> makes on the objects it holds.\<close>

datatype effect =
    CancelAnimationFrame nat
  | DisconnectGainNode nat
  | DisconnectMicrophone nat
  | StopTracks nat
  | CloseAudioContext nat

definition call :: "(nat \<Rightarrow> effect) \<Rightarrow> nat option \<Rightarrow> effect list" where
  "call f obj = (case obj of None \<Rightarrow> [] | Some h \<Rightarrow> [f h])"

text \<open>
  \<open>stop()\<close>: the processor afterwards and the calls made, in order. An object reference
  is truthy exactly when it is not \<open>null\<close>, so each \<open>if (this.x) { ...; this.x = null }\<close>
  leaves \<open>x\<close> null; the analyser is dropped without a call.
\<close>

definition AudioProcessor_stop :: "AudioProcessor \<Rightarrow> AudioProcessor \<times> effect list" where
  "AudioProcessor_stop p =
     (p\<lparr>animationFrame := (if truthy (animationFrame p) then None else animationFrame p),
        gainNode := None,
        microphone := None,
        analyser := None,
        stream := None,
        audioContext := None,
        smoothedFrequency := None,
        monitoringEnabled := False\<rparr>,
      (if truthy (animationFrame p) then call CancelAnimationFrame (animationFrame p) else []) @
      call DisconnectGainNode (gainNode p) @
      call DisconnectMicrophone (microphone p) @
      call StopTracks (stream p) @
      call CloseAudioContext (audioContext p))"

section \<open>MetronomeTimer (metronome-timer.js)\<close>

record MetronomeTimer =
  bpm :: real
  beatsPerMeasure :: int
  intervalMs :: real
  expectedTime :: "real option"
  timeoutId :: "nat option"
  currentBeat :: int
  isRunning :: bool

text \<open>
  The constructor (\<open>onBeat\<close> is the log \<open>beats\<close> of the world below). For a tempo of
  \<open>0\<close> the source's interval \<open>60 / bpm\<close> is \<open>Infinity\<close>, which the model does not
  represent: the properties below are stated for tempos other than \<open>0\<close>.
\<close>

definition MetronomeTimer_new :: "real \<Rightarrow> int \<Rightarrow> MetronomeTimer" where
  "MetronomeTimer_new b n =
     \<lparr>bpm = b, beatsPerMeasure = n, intervalMs = (60 / b) * 1000, expectedTime = None,
      timeoutId = None, currentBeat = 1, isRunning = False\<rparr>"

text \<open>
  The timer runs against a simulated host: the timer object together with the clock
  (\<open>Date.now()\<close>, in milliseconds), the timeouts that are set and have neither fired nor
  been cleared (handle and due time), the last handle \<open>setTimeout\<close> returned, and the log
  of the \<open>onBeat\<close> calls (time of the call and beat, oldest first).
\<close>

record world = MetronomeTimer +
  clock :: real
  pending :: "(nat \<times> real) list"
  lastId :: nat
  beats :: "(real \<times> int) list"

definition new_world :: "real \<Rightarrow> int \<Rightarrow> real \<Rightarrow> world" where
  "new_world b n t0 =
     MetronomeTimer.extend (MetronomeTimer_new b n)
       (world.fields t0 [] 0 [])"

text \<open>\<open>null\<close> in arithmetic is \<open>0\<close>.\<close>

definition num :: "real option \<Rightarrow> real" where
  "num v = (case v of None \<Rightarrow> 0 | Some x \<Rightarrow> x)"

text \<open>\<open>setTimeout\<close> returns a fresh positive handle; the timeout is due \<open>delay\<close>
  milliseconds from now.\<close>

definition setTimeout :: "real \<Rightarrow> world \<Rightarrow> nat \<times> world" where
  "setTimeout delay w =
     (Suc (lastId w),
      w\<lparr>pending := pending w @ [(Suc (lastId w), clock w + delay)],
        lastId := Suc (lastId w)\<rparr>)"

definition clearTimeout :: "nat \<Rightarrow> world \<Rightarrow> world" where
  "clearTimeout h w = w\<lparr>pending := filter (\<lambda>p. fst p \<noteq> h) (pending w)\<rparr>"

definition onBeat :: "int \<Rightarrow> world \<Rightarrow> world" where
  "onBeat beat w = w\<lparr>beats := beats w @ [(clock w, beat)]\<rparr>"

text \<open>\<open>tick()\<close>: sets the timeout whose callback is \<open>timeout_callback\<close> below.\<close>

definition tick :: "world \<Rightarrow> world" where
  "tick w =
     (if \<not> isRunning w then w
      else
        (let delay = max 0 (intervalMs w - (clock w - num (expectedTime w)));
             (h, w') = setTimeout delay w
         in w'\<lparr>timeoutId := Some h\<rparr>))"

text \<open>The arrow function \<open>tick\<close> passes to \<open>setTimeout\<close> (lines 40 to 56).\<close>

definition timeout_callback :: "world \<Rightarrow> world" where
  "timeout_callback w =
     (let drift = clock w - num (expectedTime w);
          w1 = w\<lparr>currentBeat := currentBeat w + 1\<rparr>;
          w2 = (if currentBeat w1 > beatsPerMeasure w1 then w1\<lparr>currentBeat := 1\<rparr> else w1);
          w3 = onBeat (currentBeat w2) w2;
          w4 = w3\<lparr>expectedTime := Some (num (expectedTime w3) + intervalMs w3)\<rparr>
      in tick w4)"

definition start :: "world \<Rightarrow> world" where
  "start w =
     (if isRunning w then w
      else
        (let w1 = w\<lparr>isRunning := True\<rparr>;
             w2 = w1\<lparr>currentBeat := 1\<rparr>;
             w3 = w2\<lparr>expectedTime := Some (clock w2 + intervalMs w2)\<rparr>;
             w4 = onBeat (currentBeat w3) w3
         in tick w4))"

text \<open>The block \<open>if (this.timeoutId) { clearTimeout(this.timeoutId); this.timeoutId = null }\<close>
  of \<open>stop\<close> and \<open>pause\<close>.\<close>

definition cancel :: "world \<Rightarrow> world" where
  "cancel w =
     (case timeoutId w of
        None \<Rightarrow> w
      | Some h \<Rightarrow> if truthy (timeoutId w) then (clearTimeout h w)\<lparr>timeoutId := None\<rparr> else w)"

definition stop :: "world \<Rightarrow> world" where
  "stop w = (cancel (w\<lparr>isRunning := False\<rparr>))\<lparr>currentBeat := 1\<rparr>"

text \<open>\<open>updateBPM(newBpm)\<close> at the time \<open>now\<close>.\<close>

definition updateBPM :: "real \<Rightarrow> real \<Rightarrow> 'a MetronomeTimer_scheme \<Rightarrow> 'a MetronomeTimer_scheme" where
  "updateBPM now newBpm t =
     (let t1 = t\<lparr>bpm := newBpm\<rparr>;
          t2 = t1\<lparr>intervalMs := (60 / newBpm) * 1000\<rparr>
      in if isRunning t2 then t2\<lparr>expectedTime := Some (now + intervalMs t2)\<rparr> else t2)"

definition updateTimeSignature :: "int \<Rightarrow> world \<Rightarrow> world" where
  "updateTimeSignature n w =
     (let w1 = w\<lparr>beatsPerMeasure := n\<rparr>;
          w2 = w1\<lparr>currentBeat := 1\<rparr>
      in if isRunning w2 then start (stop w2) else w2)"

definition pause :: "world \<Rightarrow> world" where
  "pause w = cancel (w\<lparr>isRunning := False\<rparr>)"

definition resume :: "world \<Rightarrow> world" where
  "resume w =
     (if isRunning w then w
      else
        (let w1 = w\<lparr>isRunning := True\<rparr>;
             w2 = w1\<lparr>expectedTime := Some (clock w1 + intervalMs w1)\<rparr>
         in tick w2))"

subsection \<open>The host: time passing and timeouts firing\<close>

text \<open>The pending timeout that is due first (the one set first, among equals).\<close>

fun earliest :: "(nat \<times> real) list \<Rightarrow> (nat \<times> real) option" where
  "earliest [] = None"
| "earliest (x # xs) =
     (case earliest xs of
        None \<Rightarrow> Some x
      | Some y \<Rightarrow> if snd x \<le> snd y then Some x else Some y)"

text \<open>
  The host runs the callback of the timeout due first, \<open>late\<close> milliseconds after it is
  due (and never before the present); with no timeout pending nothing happens. Zero
  jitter is \<open>late = 0\<close>.
\<close>

definition fire :: "nat \<Rightarrow> world \<Rightarrow> world" where
  "fire late w =
     (case earliest (pending w) of
        None \<Rightarrow> w
      | Some (h, due) \<Rightarrow>
          timeout_callback
            (w\<lparr>pending := filter (\<lambda>p. fst p \<noteq> h) (pending w),
               clock := max (clock w) due + real late\<rparr>))"

definition elapse :: "nat \<Rightarrow> world \<Rightarrow> world" where
  "elapse ms w = w\<lparr>clock := clock w + real ms\<rparr>"

datatype event =
    Start | Stop | Pause | Resume
  | UpdateBPM real
  | UpdateTimeSignature int
  | Fire nat
  | Elapse nat

fun apply_event :: "world \<Rightarrow> event \<Rightarrow> world" where
  "apply_event w Start = start w"
| "apply_event w Stop = stop w"
| "apply_event w Pause = pause w"
| "apply_event w Resume = resume w"
| "apply_event w (UpdateBPM b) = updateBPM (clock w) b w"
| "apply_event w (UpdateTimeSignature n) = updateTimeSignature n w"
| "apply_event w (Fire late) = fire late w"
| "apply_event w (Elapse ms) = elapse ms w"

definition run :: "world \<Rightarrow> event list \<Rightarrow> world" where
  "run w evs = foldl apply_event w evs"

text \<open>The events with a tempo other than \<open>0\<close> and at least one beat per measure.\<close>

fun supported :: "event \<Rightarrow> bool" where
  "supported (UpdateBPM b) = (b \<noteq> 0)"
| "supported (UpdateTimeSignature n) = (1 \<le> n)"
| "supported _ = True"

text \<open>The beat index lies between \<open>1\<close> and the number of beats per measure.\<close>

definition beat_ok :: "world \<Rightarrow> bool" where
  "beat_ok w = (1 \<le> currentBeat w \<and> currentBeat w \<le> beatsPerMeasure w)"

section \<open>VisualMetronome (visual-metronome.js)\<close>

text \<open>
  The fields \<open>changeBpm\<close> touches: the component's tempo and time signature, its timer
  (\<open>null\<close> until the metronome is first switched on), and the two entries of
  \<open>localStorage\<close> that \<open>saveSettings\<close> writes.
\<close>

record VisualMetronome =
  vm_bpm :: real
  vm_timeSignature :: string
  vm_timer :: "MetronomeTimer option"
  stored_bpm :: "real option"
  stored_timeSignature :: "string option"

definition saveSettings :: "VisualMetronome \<Rightarrow> VisualMetronome" where
  "saveSettings vm =
     vm\<lparr>stored_bpm := Some (vm_bpm vm), stored_timeSignature := Some (vm_timeSignature vm)\<rparr>"

text \<open>\<open>changeBpm(delta)\<close> at the time \<open>now\<close>.\<close>

definition changeBpm :: "real \<Rightarrow> real \<Rightarrow> VisualMetronome \<Rightarrow> VisualMetronome" where
  "changeBpm now delta vm =
     (let newBpm = max 20 (min 150 (vm_bpm vm + delta)) in
      if newBpm \<noteq> vm_bpm vm then
        (let vm1 = vm\<lparr>vm_bpm := newBpm\<rparr>;
             vm2 = saveSettings vm1
         in case vm_timer vm2 of
              None \<Rightarrow> vm2
            | Some t \<Rightarrow> vm2\<lparr>vm_timer := Some (updateBPM now (vm_bpm vm2) t)\<rparr>)
      else vm)"

declare scan.simps [simp del]

section \<open>Properties of the pitch detector\<close>

subsection \<open>The loops as sums\<close>

lemma sum_squares_eq: "sum_squares buffer = (\<Sum>v\<leftarrow>buffer. v * v)"
proof -
  have "foldl (\<lambda>rms val. rms + val * val) a buffer = a + (\<Sum>v\<leftarrow>buffer. v * v)" for a
    by (induction buffer arbitrary: a) simp_all
  then show ?thesis by (simp add: sum_squares_def)
qed

lemma abs_diff_sum_eq:
  "abs_diff_sum buffer offset =
     (\<Sum>i\<leftarrow>[0..<MAX_SAMPLES buffer]. \<bar>buffer ! i - buffer ! (i + offset)\<bar>)"
proof -
  have "foldl (\<lambda>c i. c + \<bar>buffer ! i - buffer ! (i + offset)\<bar>) a is
        = a + (\<Sum>i\<leftarrow>is. \<bar>buffer ! i - buffer ! (i + offset)\<bar>)" for a "is"
    by (induction "is" arbitrary: a) simp_all
  then show ?thesis by (simp add: abs_diff_sum_def)
qed

lemma abs_diff_sum_nonneg: "0 \<le> abs_diff_sum buffer offset"
  unfolding abs_diff_sum_eq by (rule sum_list_nonneg) auto

lemma sum_list_le_const:
  fixes f :: "nat \<Rightarrow> real"
  assumes "\<And>i. i \<in> set is \<Longrightarrow> f i \<le> c"
  shows "(\<Sum>i\<leftarrow>is. f i) \<le> c * real (length is)"
  using assms by (induction "is") (auto simp: algebra_simps intro: add_mono)

lemma abs_diff_sum_le:
  assumes off: "offset \<le> MAX_SAMPLES buffer"
    and bnd: "\<And>x. x \<in> set buffer \<Longrightarrow> \<bar>x\<bar> \<le> c"
  shows "abs_diff_sum buffer offset \<le> 2 * c * real (MAX_SAMPLES buffer)"
proof -
  have "\<bar>buffer ! i - buffer ! (i + offset)\<bar> \<le> 2 * c"
    if "i \<in> set [0..<MAX_SAMPLES buffer]" for i
  proof -
    from that off have "i < length buffer" "i + offset < length buffer"
      by (auto simp: MAX_SAMPLES_def SIZE_def)
    then have "\<bar>buffer ! i\<bar> \<le> c" "\<bar>buffer ! (i + offset)\<bar> \<le> c"
      using bnd nth_mem by blast+
    then show ?thesis by linarith
  qed
  then have "(\<Sum>i\<leftarrow>[0..<MAX_SAMPLES buffer]. \<bar>buffer ! i - buffer ! (i + offset)\<bar>)
      \<le> 2 * c * real (length [0..<MAX_SAMPLES buffer])"
    by (rule sum_list_le_const)
  then show ?thesis by (simp add: abs_diff_sum_eq)
qed

lemma correlation_ge:
  assumes "1 \<le> offset" "offset \<le> MAX_SAMPLES buffer"
    and "\<And>x. x \<in> set buffer \<Longrightarrow> \<bar>x\<bar> \<le> c"
  shows "1 - 2 * c \<le> correlation buffer offset"
proof -
  have pos: "0 < real (MAX_SAMPLES buffer)" using assms by simp
  have "abs_diff_sum buffer offset / real (MAX_SAMPLES buffer) \<le> 2 * c"
    using abs_diff_sum_le[OF assms(2,3)] pos by (simp add: pos_divide_le_eq)
  then show ?thesis by (simp add: correlation_def)
qed

subsection \<open>The chosen offset\<close>

lemma scan_range:
  "scan buffer offset l b k = k \<or>
   (int offset \<le> scan buffer offset l b k \<and> scan buffer offset l b k < int (MAX_SAMPLES buffer))"
proof (induction buffer offset l b k rule: scan.induct)
  case (1 buffer offset l b k)
  show ?case
  proof (cases "offset < MAX_SAMPLES buffer")
    case False
    then show ?thesis by (simp add: scan.simps)
  next
    case True
    show ?thesis
    proof (cases "correlation buffer offset > 0.9
            \<and> correlation buffer offset > l
            \<and> correlation buffer offset - l > b")
      case c: True
      with True "1.IH"(1) show ?thesis
        by (subst (1 2 3) scan.simps) auto
    next
      case c: False
      with True "1.IH"(2) show ?thesis
        by (subst (1 2 3) scan.simps) auto
    qed
  qed
qed

lemma findBestOffset_range:
  "findBestOffset buffer = - 1 \<or>
   (1 \<le> findBestOffset buffer \<and> findBestOffset buffer \<le> int (MAX_SAMPLES buffer) - 1)"
  using scan_range[of buffer 1 1 0 "- 1"] by (auto simp: findBestOffset_def)

lemma divisors_nonzero: "buffer \<noteq> [] \<Longrightarrow> 0 \<notin> set (divisors buffer)"
  using findBestOffset_range[of buffer]
  by (auto simp: divisors_def SIZE_def)

lemma autoCorrelate_lag:
  assumes "autoCorrelate sr buffer \<noteq> - 1"
  shows "1 \<le> findBestOffset buffer"
    and "findBestOffset buffer \<le> int (SIZE buffer div 2) - 1"
    and "autoCorrelate sr buffer = sr / real_of_int (findBestOffset buffer)"
  using assms findBestOffset_range[of buffer]
  by (auto simp: autoCorrelate_def MAX_SAMPLES_def split: if_splits)

lemma single_sample: "autoCorrelate sr [x] = - 1 \<and> divisors [x] = [1]"
  by (simp add: autoCorrelate_def divisors_def findBestOffset_def scan.simps
      MAX_SAMPLES_def SIZE_def)

subsection \<open>Sample buffers\<close>

text \<open>A buffer of period two: the offset \<open>2\<close> is chosen, the frequency is half the
  sample rate.\<close>

lemma period2_offset: "findBestOffset [1, - 1, 1, - 1, 1, - 1] = 2"
  by (simp add: findBestOffset_def scan.simps correlation_def abs_diff_sum_def
      MAX_SAMPLES_def SIZE_def)

lemma period2_loud: "\<not> too_quiet [1, - 1, 1, - 1, 1, - 1]"
  by (simp add: too_quiet_def rms_def sum_squares_def SIZE_def)

lemma period2_frequency: "autoCorrelate sr [1, - 1, 1, - 1, 1, - 1] = sr / 2"
  by (simp add: autoCorrelate_def period2_loud period2_offset)

lemma rms_quiet_example: "rms [1 / 200, - (1 / 200)] = Some (1 / 200)"
proof -
  have "sqrt ((1 / 200) * (1 / 200)) = \<bar>1 / 200 :: real\<bar>"
    by (rule real_sqrt_abs2)
  then show ?thesis
    by (simp add: rms_def sum_squares_def SIZE_def)
qed

subsection \<open>The silence gate\<close>

text \<open>
  C7. A buffer whose root-mean-square amplitude is below the threshold \<open>0.01\<close> has no
  pitch: \<open>autoCorrelate\<close> returns \<open>-1\<close> and \<open>detectPitch\<close> returns \<open>null\<close>, whatever the
  sample rate.
\<close>

theorem quiet_no_pitch:
  "rms buffer = Some r \<Longrightarrow> r < 0.01 \<Longrightarrow>
     autoCorrelate sr buffer = - 1 \<and> detectPitch sr buffer = None"
  by (simp add: autoCorrelate_def detectPitch_def too_quiet_def)

text \<open>The buffer \<open>[0.005, -0.005]\<close> has the amplitude \<open>0.005\<close>.\<close>

theorem quiet_no_pitch_witness:
  "rms [1 / 200, - (1 / 200)] = Some (1 / 200) \<and> (1 / 200 :: real) < 0.01 \<and>
   autoCorrelate 44100 [1 / 200, - (1 / 200)] = - 1 \<and>
   detectPitch 44100 [1 / 200, - (1 / 200)] = None"
proof -
  have lt: "(1 / 200 :: real) < 0.01" by simp
  note t = quiet_no_pitch[OF rms_quiet_example lt, of 44100]
  from t have t1: "autoCorrelate 44100 [1 / 200, - (1 / 200)] = - 1" by (rule conjunct1)
  from t have t2: "detectPitch 44100 [1 / 200, - (1 / 200)] = None" by (rule conjunct2)
  show ?thesis by (intro conjI) (rule rms_quiet_example lt t1 t2)+
qed

subsection \<open>The similarity score\<close>

text \<open>
  C2, as the code has it. For a lag from \<open>1\<close> up to \<open>N / 2\<close> (the loop visits the lags
  below \<open>N / 2\<close>) the score, \<open>1\<close> minus the mean absolute difference over the first
  \<open>N / 2\<close> samples, is at most \<open>1\<close>. It is at least \<open>-1\<close> when every sample lies in
  \<open>[-1, 1]\<close>, and at least \<open>0\<close> when every sample lies in \<open>[-1/2, 1/2]\<close>; beyond that it
  can be negative.
\<close>

theorem correlation_bounds:
  assumes "1 \<le> offset" and "offset \<le> MAX_SAMPLES buffer"
  shows "correlation buffer offset \<le> 1 \<and>
         ((\<forall>x\<in>set buffer. \<bar>x\<bar> \<le> 1) \<longrightarrow> - 1 \<le> correlation buffer offset) \<and>
         ((\<forall>x\<in>set buffer. \<bar>x\<bar> \<le> 1 / 2) \<longrightarrow> 0 \<le> correlation buffer offset)"
proof (intro conjI impI)
  show "correlation buffer offset \<le> 1"
    using abs_diff_sum_nonneg[of buffer offset] by (simp add: correlation_def)
next
  assume "\<forall>x\<in>set buffer. \<bar>x\<bar> \<le> 1"
  then show "- 1 \<le> correlation buffer offset"
    using correlation_ge[OF assms, of 1] by simp
next
  assume "\<forall>x\<in>set buffer. \<bar>x\<bar> \<le> 1 / 2"
  then show "0 \<le> correlation buffer offset"
    using correlation_ge[OF assms, of "1 / 2"] by simp
qed

theorem correlation_bounds_witness:
  "1 \<le> MAX_SAMPLES [1, - 1, 1, - 1] \<and>
   correlation [1, - 1, 1, - 1] 1 \<le> 1 \<and>
   - 1 \<le> correlation [1, - 1, 1, - 1] 1 \<and>
   1 \<le> MAX_SAMPLES [1 / 2, - (1 / 2), 1 / 2, - (1 / 2)] \<and>
   0 \<le> correlation [1 / 2, - (1 / 2), 1 / 2, - (1 / 2)] 1"
proof -
  have o: "1 \<le> (1::nat)" by simp
  have m1: "1 \<le> MAX_SAMPLES [1, - 1, 1, - 1]"
    by (simp add: MAX_SAMPLES_def SIZE_def)
  have m2: "1 \<le> MAX_SAMPLES [1 / 2, - (1 / 2), 1 / 2, - (1 / 2)]"
    by (simp add: MAX_SAMPLES_def SIZE_def)
  have b1: "\<forall>x\<in>set [1, - 1, 1, - 1 :: real]. \<bar>x\<bar> \<le> 1" by simp
  have b2: "\<forall>x\<in>set [1 / 2, - (1 / 2), 1 / 2, - (1 / 2) :: real]. \<bar>x\<bar> \<le> 1 / 2" by simp
  note t1 = correlation_bounds[OF o m1]
  note t2 = correlation_bounds[OF o m2]
  have u: "correlation [1, - 1, 1, - 1] 1 \<le> 1"
    using t1 by (rule conjunct1)
  have l1: "- 1 \<le> correlation [1, - 1, 1, - 1] 1"
    using t1[THEN conjunct2, THEN conjunct1] b1 by (rule mp)
  have l2: "0 \<le> correlation [1 / 2, - (1 / 2), 1 / 2, - (1 / 2)] 1"
    using t2[THEN conjunct2, THEN conjunct2] b2 by (rule mp)
  show ?thesis by (intro conjI) (rule m1 u l1 m2 l2)+
qed

text \<open>
  The buffer \<open>[1, -1, 1, -1]\<close> has \<open>N / 2 = 2\<close>; the loop visits the lag \<open>1\<close>, where the
  score is \<open>1 - (2 + 2) / 2 = -1\<close>.
\<close>

theorem negative_similarity: "\<not> 0 \<le> correlation [1, - 1, 1, - 1] 1"
  by (simp add: correlation_def abs_diff_sum_def MAX_SAMPLES_def SIZE_def)

subsection \<open>The range check of detectPitch\<close>

text \<open>
  C4. A frequency that \<open>detectPitch\<close> returns is the one \<open>autoCorrelate\<close> found and lies
  between 60 Hz and 1000 Hz; a result of \<open>autoCorrelate\<close> outside that range is reported
  as \<open>null\<close>.
\<close>

theorem detectPitch_in_range:
  "(detectPitch sr buffer = Some f \<longrightarrow>
      60 \<le> f \<and> f \<le> 1000 \<and> autoCorrelate sr buffer = f) \<and>
   (autoCorrelate sr buffer < 60 \<or> 1000 < autoCorrelate sr buffer \<longrightarrow>
      detectPitch sr buffer = None)"
  by (auto simp: detectPitch_def Let_def split: if_splits)

text \<open>At 1000 samples per second the buffer of period two sounds at 500 Hz; at 44100 the
  correlation step finds 22050 Hz, which is dropped.\<close>

theorem detectPitch_in_range_witness:
  "detectPitch 1000 [1, - 1, 1, - 1, 1, - 1] = Some 500 \<and>
   (60::real) \<le> 500 \<and> (500::real) \<le> 1000 \<and>
   autoCorrelate 44100 [1, - 1, 1, - 1, 1, - 1] = 22050 \<and>
   detectPitch 44100 [1, - 1, 1, - 1, 1, - 1] = None"
proof -
  have a: "detectPitch 1000 [1, - 1, 1, - 1, 1, - 1] = Some 500"
    by (simp add: detectPitch_def period2_frequency)
  have b: "autoCorrelate 44100 [1, - 1, 1, - 1, 1, - 1] = 22050"
    by (simp add: period2_frequency)
  have c: "autoCorrelate 44100 [1, - 1, 1, - 1, 1, - 1] < 60 \<or>
           1000 < autoCorrelate 44100 [1, - 1, 1, - 1, 1, - 1]"
    by (simp add: b)
  note t1 = detectPitch_in_range[of 1000 "[1, - 1, 1, - 1, 1, - 1]" 500,
      THEN conjunct1, THEN mp, OF a]
  note t2 = detectPitch_in_range[of 44100 "[1, - 1, 1, - 1, 1, - 1]" 0,
      THEN conjunct2, THEN mp, OF c]
  from t1 have r1: "(60::real) \<le> 500" by (rule conjunct1)
  from t1 have r2: "(500::real) \<le> 1000" by (elim conjE)
  show ?thesis by (intro conjI) (rule a r1 r2 b t2)+
qed

subsection \<open>Divisors and the chosen lag\<close>

text \<open>
  C9, as the code has it. For every buffer that is not empty no divisor of
  \<open>autoCorrelate\<close> is \<open>0\<close>. For every buffer, whenever \<open>autoCorrelate\<close> returns a
  frequency, the chosen lag lies between \<open>1\<close> and \<open>N / 2 - 1\<close> and the frequency is the
  sample rate divided by it. A buffer of one sample yields no pitch, and its only divisor
  is its length \<open>1\<close>.
\<close>

theorem no_zero_divisor_no_zero_lag:
  "(buffer \<noteq> [] \<longrightarrow> 0 \<notin> set (divisors buffer)) \<and>
   (autoCorrelate sr buffer \<noteq> - 1 \<longrightarrow>
      1 \<le> findBestOffset buffer \<and>
      findBestOffset buffer \<le> int (SIZE buffer div 2) - 1 \<and>
      autoCorrelate sr buffer = sr / real_of_int (findBestOffset buffer)) \<and>
   autoCorrelate sr [x] = - 1 \<and> divisors [x] = [1]"
proof (intro conjI impI)
  assume "buffer \<noteq> []"
  then show "0 \<notin> set (divisors buffer)" by (rule divisors_nonzero)
next
  assume a: "autoCorrelate sr buffer \<noteq> - 1"
  show "1 \<le> findBestOffset buffer" by (rule autoCorrelate_lag(1)[OF a])
  show "findBestOffset buffer \<le> int (SIZE buffer div 2) - 1"
    by (rule autoCorrelate_lag(2)[OF a])
  show "autoCorrelate sr buffer = sr / real_of_int (findBestOffset buffer)"
    by (rule autoCorrelate_lag(3)[OF a])
next
  show "autoCorrelate sr [x] = - 1" using single_sample[of sr x] by (rule conjunct1)
  show "divisors [x] = [1]" using single_sample[of sr x] by (rule conjunct2)
qed

theorem no_zero_divisor_no_zero_lag_witness:
  "[1, - 1, 1, - 1, 1, - 1] \<noteq> ([] :: real list) \<and>
   0 \<notin> set (divisors [1, - 1, 1, - 1, 1, - 1]) \<and>
   autoCorrelate 1000 [1, - 1, 1, - 1, 1, - 1] \<noteq> - 1 \<and>
   findBestOffset [1, - 1, 1, - 1, 1, - 1] = 2 \<and>
   (2 :: int) \<le> int (SIZE [1, - 1, 1, - 1, 1, - 1 :: real] div 2) - 1 \<and>
   autoCorrelate 1000 [1, - 1, 1, - 1, 1, - 1] = 500"
proof -
  have ne: "[1, - 1, 1, - 1, 1, - 1] \<noteq> ([] :: real list)" by simp
  have fr: "autoCorrelate 1000 [1, - 1, 1, - 1, 1, - 1] \<noteq> - 1"
    by (simp add: period2_frequency)
  note t = no_zero_divisor_no_zero_lag[of "[1, - 1, 1, - 1, 1, - 1]" 1000 0]
  from t ne have t1: "0 \<notin> set (divisors [1, - 1, 1, - 1, 1, - 1])"
    by (elim conjE) (erule mp)
  from t fr have t2: "findBestOffset [1, - 1, 1, - 1, 1, - 1]
      \<le> int (SIZE [1, - 1, 1, - 1, 1, - 1 :: real] div 2) - 1"
    by (elim conjE) (drule (1) mp, elim conjE, assumption)
  have t3: "(2 :: int) \<le> int (SIZE [1, - 1, 1, - 1, 1, - 1 :: real] div 2) - 1"
    using t2 by (simp only: period2_offset)
  have t4: "autoCorrelate 1000 [1, - 1, 1, - 1, 1, - 1] = 500"
    by (simp add: period2_frequency)
  show ?thesis by (intro conjI) (rule ne t1 fr period2_offset t3 t4)+
qed

text \<open>
  For the empty buffer \<open>SIZE\<close> is \<open>0\<close> and line 27 divides \<open>0\<close> by it; the result is still
  \<open>-1\<close>.
\<close>

theorem empty_buffer_divides_by_zero:
  "0 \<in> set (divisors []) \<and> autoCorrelate 44100 [] = - 1"
  by (simp add: divisors_def autoCorrelate_def too_quiet_def rms_def SIZE_def MAX_SAMPLES_def
      findBestOffset_def scan.simps)

section \<open>Properties of the audio processor\<close>

lemma smooth_same: "smooth (Some x) a x = x"
  by (simp add: smooth_def algebra_simps)

text \<open>
  C6. With the smoothed value unset, a detected frequency \<open>x\<close> becomes the smoothed value
  and is what is published; with the smoothed value equal to \<open>x\<close>, a further \<open>x\<close> leaves
  it unchanged, for every smoothing factor (\<open>x * (1 - a) + x * a = x\<close>). A tick with no
  pitch unsets the smoothed value. A detected frequency is at least 60, so it is not \<open>0\<close>.
\<close>

theorem smoothing_filter:
  "(x \<noteq> 0 \<longrightarrow>
      publish (Some x) (p\<lparr>smoothedFrequency := None\<rparr>)
        = (p\<lparr>smoothedFrequency := Some x\<rparr>, Some x)) \<and>
   (x \<noteq> 0 \<longrightarrow>
      publish (Some x) (p\<lparr>smoothedFrequency := Some x\<rparr>)
        = (p\<lparr>smoothedFrequency := Some x\<rparr>, Some x)) \<and>
   smooth None a x = x \<and> smooth (Some x) a x = x \<and>
   smoothedFrequency (fst (publish None p)) = None"
  by (simp add: publish_def truthy_def smooth_same Let_def) (simp add: smooth_def)

theorem smoothing_filter_witness:
  "(440::real) \<noteq> 0 \<and>
   publish (Some 440) (AudioProcessor_new\<lparr>smoothedFrequency := None\<rparr>)
     = (AudioProcessor_new\<lparr>smoothedFrequency := Some 440\<rparr>, Some 440) \<and>
   publish (Some 440) (AudioProcessor_new\<lparr>smoothedFrequency := Some 440\<rparr>)
     = (AudioProcessor_new\<lparr>smoothedFrequency := Some 440\<rparr>, Some 440)"
proof -
  have nz: "(440::real) \<noteq> 0" by simp
  note t = smoothing_filter[of 440 AudioProcessor_new 0]
  note t1 = t[THEN conjunct1, THEN mp, OF nz]
  note t2 = t[THEN conjunct2, THEN conjunct1, THEN mp, OF nz]
  show ?thesis by (intro conjI) (rule nz t1 t2)+
qed

lemma AudioProcessor_stop_twice:
  "AudioProcessor_stop (fst (AudioProcessor_stop p)) = (fst (AudioProcessor_stop p), [])"
  by (simp add: AudioProcessor_stop_def call_def truthy_def split: option.splits)

lemma AudioProcessor_stop_new:
  "AudioProcessor_stop AudioProcessor_new = (AudioProcessor_new, [])"
  by (simp add: AudioProcessor_stop_def AudioProcessor_new_def call_def truthy_def)

section \<open>Properties of the metronome timer\<close>

subsection \<open>What each operation does to the fields\<close>

lemma run_Nil: "run w [] = w"
  by (simp add: run_def)

lemma run_Cons: "run w (e # evs) = run (apply_event w e) evs"
  by (simp add: run_def)

lemma run_snoc: "run w (evs @ [e]) = apply_event (run w evs) e"
  by (simp add: run_def)

lemma earliest_None: "earliest xs = None \<longleftrightarrow> xs = []"
  by (cases xs) (auto split: option.splits)

lemma new_world_fields:
  "currentBeat (new_world b n t0) = 1"
  "beatsPerMeasure (new_world b n t0) = n"
  "isRunning (new_world b n t0) = False"
  "intervalMs (new_world b n t0) = 60 / b * 1000"
  "clock (new_world b n t0) = t0"
  "pending (new_world b n t0) = []"
  "beats (new_world b n t0) = []"
  "timeoutId (new_world b n t0) = None"
  "expectedTime (new_world b n t0) = None"
  "lastId (new_world b n t0) = 0"
  by (simp_all add: new_world_def MetronomeTimer_new_def MetronomeTimer.extend_def
      world.fields_def)

lemma tick_fields:
  "currentBeat (tick w) = currentBeat w"
  "beatsPerMeasure (tick w) = beatsPerMeasure w"
  "isRunning (tick w) = isRunning w"
  "beats (tick w) = beats w"
  "intervalMs (tick w) = intervalMs w"
  "expectedTime (tick w) = expectedTime w"
  "clock (tick w) = clock w"
  by (simp_all add: tick_def setTimeout_def Let_def)

lemma tick_pending:
  "isRunning w \<Longrightarrow> pending (tick w) =
     pending w @
       [(Suc (lastId w), clock w + max 0 (intervalMs w - (clock w - num (expectedTime w))))]"
  by (simp add: tick_def setTimeout_def Let_def)

lemma callback_fields:
  "currentBeat (timeout_callback w) =
     (if currentBeat w + 1 > beatsPerMeasure w then 1 else currentBeat w + 1)"
  "beatsPerMeasure (timeout_callback w) = beatsPerMeasure w"
  "isRunning (timeout_callback w) = isRunning w"
  "beats (timeout_callback w) =
     beats w @
       [(clock w, if currentBeat w + 1 > beatsPerMeasure w then 1 else currentBeat w + 1)]"
  "intervalMs (timeout_callback w) = intervalMs w"
  "expectedTime (timeout_callback w) = Some (num (expectedTime w) + intervalMs w)"
  "clock (timeout_callback w) = clock w"
  by (simp_all add: timeout_callback_def tick_fields onBeat_def Let_def)

lemma callback_pending:
  "isRunning w \<Longrightarrow> pending (timeout_callback w) =
     pending w @ [(Suc (lastId w),
        clock w + max 0 (intervalMs w - (clock w - (num (expectedTime w) + intervalMs w))))]"
  by (simp add: timeout_callback_def tick_pending tick_fields onBeat_def Let_def num_def)

lemma cancel_fields:
  "currentBeat (cancel w) = currentBeat w"
  "beatsPerMeasure (cancel w) = beatsPerMeasure w"
  "isRunning (cancel w) = isRunning w"
  "beats (cancel w) = beats w"
  by (simp_all add: cancel_def clearTimeout_def split: option.splits)

lemma start_fields:
  "beatsPerMeasure (start w) = beatsPerMeasure w"
  "currentBeat (start w) = (if isRunning w then currentBeat w else 1)"
  by (simp_all add: start_def tick_fields onBeat_def Let_def)

lemma start_fresh:
  assumes "\<not> isRunning w"
  shows "isRunning (start w)"
    and "beats (start w) = beats w @ [(clock w, 1)]"
    and "expectedTime (start w) = Some (clock w + intervalMs w)"
    and "intervalMs (start w) = intervalMs w"
    and "clock (start w) = clock w"
    and "pending (start w) =
           pending w @ [(Suc (lastId w), clock w + max 0 (2 * intervalMs w))]"
  using assms
  by (simp_all add: start_def tick_fields tick_pending onBeat_def Let_def num_def)

lemma stop_fields:
  "beatsPerMeasure (stop w) = beatsPerMeasure w"
  "currentBeat (stop w) = 1"
  "isRunning (stop w) = False"
  by (simp_all add: stop_def cancel_fields)

lemma fire_fields:
  "beatsPerMeasure (fire late w) = beatsPerMeasure w"
  "currentBeat (fire late w) =
     (if pending w = [] then currentBeat w
      else if currentBeat w + 1 > beatsPerMeasure w then 1 else currentBeat w + 1)"
  "isRunning (fire late w) = isRunning w"
  by (auto simp: fire_def callback_fields earliest_None split: option.splits prod.splits)

lemma fire_beats:
  "pending w \<noteq> [] \<Longrightarrow> map snd (beats (fire late w)) =
     map snd (beats w) @
       [if currentBeat w + 1 > beatsPerMeasure w then 1 else currentBeat w + 1]"
  by (auto simp: fire_def callback_fields earliest_None split: option.splits prod.splits)

lemma fire_pending:
  "isRunning w \<Longrightarrow> pending w \<noteq> [] \<Longrightarrow> pending (fire late w) \<noteq> []"
  by (auto simp: fire_def callback_pending earliest_None split: option.splits prod.splits)

lemma updateBPM_fields:
  "bpm (updateBPM now b t) = b"
  "intervalMs (updateBPM now b t) = 60 / b * 1000"
  by (simp_all add: updateBPM_def Let_def)

subsection \<open>Beat times under zero jitter\<close>

text \<open>
  One timeout pending, due one interval after the expected time: it fires when due, the
  expected time moves on by one interval, and the next timeout is due one interval later.
\<close>

lemma fire0_steady:
  assumes "isRunning w" and "pending w = [(h, d)]" and "expectedTime w = Some e"
    and "d = e + intervalMs w" and "clock w \<le> d" and "0 \<le> intervalMs w"
  shows "isRunning (fire 0 w)"
    and "pending (fire 0 w) = [(Suc (lastId w), d + intervalMs w)]"
    and "expectedTime (fire 0 w) = Some d"
    and "clock (fire 0 w) = d"
    and "intervalMs (fire 0 w) = intervalMs w"
    and "map fst (beats (fire 0 w)) = map fst (beats w) @ [d]"
  using assms
  by (simp_all add: fire_def callback_fields callback_pending num_def max_def)

lemma run_fires_Suc:
  "run w0 (Start # replicate (Suc k) (Fire 0)) = fire 0 (run w0 (Start # replicate k (Fire 0)))"
proof -
  have "Start # replicate (Suc k) (Fire 0) = (Start # replicate k (Fire 0)) @ [Fire 0]"
    by (simp add: replicate_append_same)
  then show ?thesis by (simp only: run_snoc apply_event.simps)
qed

lemma zero_jitter_inv:
  fixes t0 :: real and n :: int
  shows "isRunning (run (new_world 60 n t0) (Start # replicate k (Fire 0))) \<and>
         (\<exists>h. pending (run (new_world 60 n t0) (Start # replicate k (Fire 0)))
                = [(h, t0 + 1000 * (real k + 2))]) \<and>
         expectedTime (run (new_world 60 n t0) (Start # replicate k (Fire 0)))
           = Some (t0 + 1000 * (real k + 1)) \<and>
         clock (run (new_world 60 n t0) (Start # replicate k (Fire 0)))
           \<le> t0 + 1000 * (real k + 2) \<and>
         intervalMs (run (new_world 60 n t0) (Start # replicate k (Fire 0))) = 1000 \<and>
         map fst (beats (run (new_world 60 n t0) (Start # replicate k (Fire 0))))
           = t0 # map (\<lambda>j. t0 + 1000 * (real j + 2)) [0..<k]"
proof (induction k)
  case 0
  show ?case
    by (simp add: run_Cons run_Nil start_fresh new_world_fields)
next
  case (Suc k)
  let ?w = "run (new_world 60 n t0) (Start # replicate k (Fire 0))"
  from Suc.IH obtain h where
    r: "isRunning ?w" and p: "pending ?w = [(h, t0 + 1000 * (real k + 2))]"
    and e: "expectedTime ?w = Some (t0 + 1000 * (real k + 1))"
    and c: "clock ?w \<le> t0 + 1000 * (real k + 2)"
    and i: "intervalMs ?w = 1000"
    and b: "map fst (beats ?w) = t0 # map (\<lambda>j. t0 + 1000 * (real j + 2)) [0..<k]"
    by (elim conjE exE)
  have d: "t0 + 1000 * (real k + 2) = (t0 + 1000 * (real k + 1)) + intervalMs ?w"
    unfolding i by simp
  have i0: "0 \<le> intervalMs ?w" unfolding i by simp
  note st = fire0_steady[OF r p e d c i0]
  have s1: "isRunning (fire 0 ?w)" by (rule st(1))
  have s2: "pending (fire 0 ?w) = [(Suc (lastId ?w), t0 + 1000 * (real (Suc k) + 2))]"
    unfolding st(2) i by simp
  have s3: "expectedTime (fire 0 ?w) = Some (t0 + 1000 * (real (Suc k) + 1))"
    unfolding st(3) by simp
  have s4: "clock (fire 0 ?w) \<le> t0 + 1000 * (real (Suc k) + 2)"
    unfolding st(4) by simp
  have s5: "intervalMs (fire 0 ?w) = 1000"
    unfolding st(5) by (rule i)
  have s6: "map fst (beats (fire 0 ?w))
      = t0 # map (\<lambda>j. t0 + 1000 * (real j + 2)) [0..<Suc k]"
    unfolding st(6) b by simp
  show ?case
    unfolding run_fires_Suc
    by (intro conjI exI) (rule s1 s2 s3 s4 s5 s6)+
qed

text \<open>
  C1, on the code. A timer at tempo 60 is started at the time \<open>t0\<close> and every timeout
  fires exactly when it is due. Beat 1 fires at \<open>t0\<close>. The beat after it fires at
  \<open>t0 + 2000\<close>, not at \<open>t0 + 1000\<close>, and the beats that follow are 1000 ms apart: beat
  \<open>n\<close> fires \<open>n * 1000\<close> ms after the start for every \<open>n \<ge> 2\<close>, whatever the number of
  beats per measure. (\<open>start\<close> sets \<open>expectedTime\<close> to \<open>now + intervalMs\<close>, and \<open>tick\<close>
  waits \<open>intervalMs - (now - expectedTime)\<close>, which is twice the interval.)
\<close>

theorem zero_jitter_beat_times:
  "map fst (beats (run (new_world 60 n t0) (Start # replicate k (Fire 0)))) =
     t0 # map (\<lambda>j. t0 + 1000 * (real j + 2)) [0..<k]"
  using zero_jitter_inv[of n t0 k] by (elim conjE)

text \<open>The first three beats of a timer in 4/4 started at the time \<open>0\<close>.\<close>

lemma first_three_beats:
  "beats (run (new_world 60 4 0) [Start, Fire 0, Fire 0]) = [(0, 1), (2000, 2), (3000, 3)]"
  by (simp add: new_world_def MetronomeTimer_new_def MetronomeTimer.extend_def
      world.fields_def start_def tick_def setTimeout_def onBeat_def num_def
      timeout_callback_def fire_def run_def Let_def)

subsection \<open>The beat index\<close>

lemma apply_event_beat_ok:
  assumes "beat_ok w" and "supported e"
  shows "beat_ok (apply_event w e)"
proof (cases e)
  case (UpdateTimeSignature m)
  with assms show ?thesis
    by (simp add: beat_ok_def updateTimeSignature_def Let_def start_fields stop_fields)
next
  case (Fire late)
  with assms show ?thesis by (auto simp: beat_ok_def fire_fields)
qed (use assms in \<open>auto simp: beat_ok_def start_fields stop_fields pause_def resume_def
      cancel_fields tick_fields updateBPM_def elapse_def Let_def\<close>)

lemma run_beat_ok:
  assumes "beat_ok w" and "\<forall>e\<in>set evs. supported e"
  shows "beat_ok (run w evs)"
  using assms
proof (induction evs arbitrary: w)
  case Nil
  then show ?case by (simp add: run_Nil)
next
  case (Cons e evs)
  have "beat_ok (apply_event w e)"
    using Cons.prems by (intro apply_event_beat_ok) auto
  then show ?case using Cons by (simp add: run_Cons)
qed

lemma next_beat:
  assumes "1 \<le> n"
  shows "(if int k mod n + 1 + 1 > n then 1 else int k mod n + 1 + 1) = int (Suc k) mod n + 1"
proof -
  define N where "N = nat n"
  have N: "n = int N" "0 < N"
    using assms by (simp_all add: N_def)
  have "Suc k mod N = (if Suc (k mod N) = N then 0 else Suc (k mod N))"
    by (rule mod_Suc)
  moreover have "k mod N < N" using N by simp
  ultimately show ?thesis
    unfolding N by (auto simp: zmod_int[symmetric] simp del: of_nat_Suc of_nat_mod)
qed

lemma beat_sequence_inv:
  assumes "1 \<le> n"
  shows "isRunning (run (new_world b n t0) (Start # map Fire lates)) \<and>
         pending (run (new_world b n t0) (Start # map Fire lates)) \<noteq> [] \<and>
         beatsPerMeasure (run (new_world b n t0) (Start # map Fire lates)) = n \<and>
         currentBeat (run (new_world b n t0) (Start # map Fire lates))
           = int (length lates) mod n + 1 \<and>
         map snd (beats (run (new_world b n t0) (Start # map Fire lates))) =
           map (\<lambda>k. int k mod n + 1) [0..<Suc (length lates)]"
proof (induction lates rule: rev_induct)
  case Nil
  show ?case
    by (simp add: run_Cons run_Nil start_fresh new_world_fields start_fields)
next
  case (snoc late lates)
  let ?w = "run (new_world b n t0) (Start # map Fire lates)"
  have eq: "run (new_world b n t0) (Start # map Fire (lates @ [late])) = fire late ?w"
    using run_snoc[of "new_world b n t0" "Start # map Fire lates" "Fire late"] by simp
  from snoc.IH have run: "isRunning ?w" and pend: "pending ?w \<noteq> []"
    and bpm: "beatsPerMeasure ?w = n" and cur: "currentBeat ?w = int (length lates) mod n + 1"
    and bs: "map snd (beats ?w) = map (\<lambda>k. int k mod n + 1) [0..<Suc (length lates)]"
    by blast+
  have nb: "(if currentBeat ?w + 1 > beatsPerMeasure ?w then 1 else currentBeat ?w + 1)
      = int (Suc (length lates)) mod n + 1"
    unfolding bpm cur by (rule next_beat[OF assms])
  show ?case
    unfolding eq
    using run pend bpm nb bs
    by (simp add: fire_fields fire_pending fire_beats del: of_nat_Suc)
qed

text \<open>
  C5. A timer is constructed with a tempo other than \<open>0\<close> and at least one beat per
  measure. After any sequence of start, stop, pause, resume, tempo changes (to a tempo
  other than \<open>0\<close>), time-signature changes (to at least one beat per measure), timeouts
  firing and time passing, the beat index lies between \<open>1\<close> and the number of beats per
  measure. From the start on, beat after beat, the indices passed to \<open>onBeat\<close> are
  \<open>1, 2, ..., n, 1, 2, ...\<close>: the beat number \<open>k\<close> (from \<open>0\<close>) has the index
  \<open>k mod n + 1\<close>, however late each timeout fires; with four beats per measure that is
  \<open>1, 2, 3, 4, 1, 2, 3, 4, ...\<close>
\<close>

theorem beat_index_in_range_and_wraps:
  assumes "b \<noteq> 0" and "1 \<le> n" and "\<forall>e\<in>set evs. supported e"
  shows "1 \<le> currentBeat (run (new_world b n t0) evs) \<and>
         currentBeat (run (new_world b n t0) evs)
           \<le> beatsPerMeasure (run (new_world b n t0) evs) \<and>
         map snd (beats (run (new_world b n t0) (Start # map Fire lates)))
           = map (\<lambda>k. int k mod n + 1) [0..<Suc (length lates)] \<and>
         map snd (beats (run (new_world b 4 t0) (Start # map Fire lates)))
           = map (\<lambda>k. int k mod 4 + 1) [0..<Suc (length lates)]"
proof -
  have "beat_ok (new_world b n t0)"
    using assms(2) by (simp add: beat_ok_def new_world_fields)
  then have "beat_ok (run (new_world b n t0) evs)"
    using assms(3) by (rule run_beat_ok)
  then have 1: "1 \<le> currentBeat (run (new_world b n t0) evs)"
    and 2: "currentBeat (run (new_world b n t0) evs)
           \<le> beatsPerMeasure (run (new_world b n t0) evs)"
    by (simp_all add: beat_ok_def)
  have 3: "map snd (beats (run (new_world b n t0) (Start # map Fire lates)))
           = map (\<lambda>k. int k mod n + 1) [0..<Suc (length lates)]"
    using beat_sequence_inv[OF assms(2), of b t0 lates] by (elim conjE)
  have 4: "map snd (beats (run (new_world b 4 t0) (Start # map Fire lates)))
           = map (\<lambda>k. int k mod 4 + 1) [0..<Suc (length lates)]"
    using beat_sequence_inv[of 4 b t0 lates] by simp
  show ?thesis by (intro conjI) (rule 1 2 3 4)+
qed

text \<open>
  A timer in 4/4 at tempo 60 that is started, paused, resumed, set to tempo 90 and to 8
  beats per measure while beats fire; and eight beats of a timer in 4/4.
\<close>

theorem beat_index_in_range_and_wraps_witness:
  "(60::real) \<noteq> 0 \<and> (1::int) \<le> 4 \<and>
   1 \<le> currentBeat (run (new_world 60 4 0)
          [Start, Fire 0, Elapse 300, Pause, Resume, Fire 0, UpdateBPM 90,
           UpdateTimeSignature 8, Fire 3, Fire 0]) \<and>
   currentBeat (run (new_world 60 4 0)
          [Start, Fire 0, Elapse 300, Pause, Resume, Fire 0, UpdateBPM 90,
           UpdateTimeSignature 8, Fire 3, Fire 0])
     \<le> beatsPerMeasure (run (new_world 60 4 0)
          [Start, Fire 0, Elapse 300, Pause, Resume, Fire 0, UpdateBPM 90,
           UpdateTimeSignature 8, Fire 3, Fire 0]) \<and>
   map snd (beats (run (new_world 60 4 0) (Start # map Fire [0, 0, 0, 0, 0, 0, 0])))
     = [1, 2, 3, 4, 1, 2, 3, 4]"
proof -
  have h1: "(60::real) \<noteq> 0" by simp
  have h2: "(1::int) \<le> 4" by simp
  have h3: "\<forall>e\<in>set [Start, Fire 0, Elapse 300, Pause, Resume, Fire 0, UpdateBPM 90,
           UpdateTimeSignature 8, Fire 3, Fire 0]. supported e"
    by simp
  note t = beat_index_in_range_and_wraps[OF h1 h2 h3, of 0 "[0, 0, 0, 0, 0, 0, 0]"]
  from t have t1: "1 \<le> currentBeat (run (new_world 60 4 0)
          [Start, Fire 0, Elapse 300, Pause, Resume, Fire 0, UpdateBPM 90,
           UpdateTimeSignature 8, Fire 3, Fire 0])"
    by (elim conjE)
  from t have t2: "currentBeat (run (new_world 60 4 0)
          [Start, Fire 0, Elapse 300, Pause, Resume, Fire 0, UpdateBPM 90,
           UpdateTimeSignature 8, Fire 3, Fire 0])
     \<le> beatsPerMeasure (run (new_world 60 4 0)
          [Start, Fire 0, Elapse 300, Pause, Resume, Fire 0, UpdateBPM 90,
           UpdateTimeSignature 8, Fire 3, Fire 0])"
    by (elim conjE)
  from t have t3: "map snd (beats (run (new_world 60 4 0) (Start # map Fire [0, 0, 0, 0, 0, 0, 0])))
      = map (\<lambda>k. int k mod 4 + 1) [0..<Suc (length [0, 0, 0, 0, 0, 0, 0 :: nat])]"
    by (elim conjE)
  have ev: "map (\<lambda>k. int k mod 4 + 1) [0..<Suc (length [0, 0, 0, 0, 0, 0, 0 :: nat])]
      = [1, 2, 3, 4, 1, 2, 3, 4]"
    by (simp add: upt_rec)
  have t4: "map snd (beats (run (new_world 60 4 0) (Start # map Fire [0, 0, 0, 0, 0, 0, 0])))
      = [1, 2, 3, 4, 1, 2, 3, 4]"
    using t3 by (simp only: ev)
  show ?thesis by (intro conjI) (rule h1 h2 t1 t2 t4)+
qed

subsection \<open>Stopping twice\<close>

lemma stop_stop: "stop (stop w) = stop w"
  by (cases "timeoutId w")
    (auto simp: stop_def cancel_def clearTimeout_def truthy_def split: option.splits)

lemma stop_new: "stop (new_world b n t0) = new_world b n t0"
  by (simp add: new_world_def MetronomeTimer_new_def MetronomeTimer.extend_def
      world.fields_def stop_def cancel_def)

text \<open>
  C8. A second \<open>stop()\<close> right after the first changes nothing, for the timer (the whole
  world, its pending timeouts and its log of beats included, is as the first call left
  it) and for the audio processor (the state is as the first call left it, and no call
  is made on any object). The same holds for a timer and a processor that were never
  started. The operations have no failing branch, and with no call made on any object
  nothing can raise.
\<close>

theorem stop_twice_is_noop:
  "stop (stop w) = stop w \<and>
   stop (new_world b n t0) = new_world b n t0 \<and>
   AudioProcessor_stop (fst (AudioProcessor_stop p)) = (fst (AudioProcessor_stop p), []) \<and>
   AudioProcessor_stop AudioProcessor_new = (AudioProcessor_new, [])"
  by (intro conjI) (rule stop_stop stop_new AudioProcessor_stop_twice AudioProcessor_stop_new)+

subsection \<open>Starting or resuming a running timer\<close>

text \<open>
  C10. On a running timer \<open>start()\<close> and \<open>resume()\<close> return at once: the world is
  unchanged, so no beat is logged, no timeout is set, and the beat index, the tempo, the
  beats per measure and the expected time are as before.
\<close>

theorem running_start_resume_noop:
  "isRunning w \<Longrightarrow> start w = w \<and> resume w = w"
  by (simp add: start_def resume_def)

theorem running_start_resume_noop_witness:
  "isRunning (start (new_world 60 4 0)) \<and>
   start (start (new_world 60 4 0)) = start (new_world 60 4 0) \<and>
   resume (start (new_world 60 4 0)) = start (new_world 60 4 0)"
proof -
  have h: "isRunning (start (new_world 60 4 0))"
    by (simp add: start_fresh new_world_fields)
  note t = running_start_resume_noop[OF h]
  from t have t1: "start (start (new_world 60 4 0)) = start (new_world 60 4 0)"
    by (rule conjunct1)
  from t have t2: "resume (start (new_world 60 4 0)) = start (new_world 60 4 0)"
    by (rule conjunct2)
  show ?thesis by (intro conjI) (rule h t1 t2)+
qed

section \<open>Properties of the tempo controls\<close>

text \<open>
  C3, as the code has it. \<open>updateBPM\<close> takes the tempo it is given, unclamped, and
  computes the interval from it. The clamping is in the caller: \<open>changeBpm\<close> bounds the
  component's tempo plus \<open>delta\<close> into \<open>[20, 150]\<close>, so the component's tempo afterwards
  is that bounded value; when the bounded value differs from the current tempo and a
  timer exists, the timer is given the bounded value, and its interval is 60000 divided
  by it.
\<close>

theorem changeBpm_clamps:
  fixes t :: MetronomeTimer
  shows
  "bpm (updateBPM now b t) = b \<and>
   (b \<noteq> 0 \<longrightarrow> intervalMs (updateBPM now b t) = 60 / b * 1000) \<and>
   vm_bpm (changeBpm now delta vm) = max 20 (min 150 (vm_bpm vm + delta)) \<and>
   20 \<le> vm_bpm (changeBpm now delta vm) \<and> vm_bpm (changeBpm now delta vm) \<le> 150 \<and>
   (vm_timer vm = Some t \<and> max 20 (min 150 (vm_bpm vm + delta)) \<noteq> vm_bpm vm \<longrightarrow>
      vm_timer (changeBpm now delta vm)
        = Some (updateBPM now (max 20 (min 150 (vm_bpm vm + delta))) t) \<and>
      map_option bpm (vm_timer (changeBpm now delta vm))
        = Some (max 20 (min 150 (vm_bpm vm + delta))) \<and>
      map_option intervalMs (vm_timer (changeBpm now delta vm))
        = Some (60 / max 20 (min 150 (vm_bpm vm + delta)) * 1000))"
  by (auto simp: changeBpm_def saveSettings_def updateBPM_fields Let_def split: option.splits)

text \<open>A component whose stored tempo was 500, with a timer, after one step up.\<close>

theorem changeBpm_clamps_witness:
  "(150::real) \<noteq> 0 \<and>
   intervalMs (updateBPM 0 150 (MetronomeTimer_new 500 4)) = 400 \<and>
   vm_timer \<lparr>vm_bpm = 500, vm_timeSignature = ''4/4'',
      vm_timer = Some (MetronomeTimer_new 500 4),
      stored_bpm = Some 500, stored_timeSignature = None\<rparr> = Some (MetronomeTimer_new 500 4) \<and>
   max 20 (min 150 (500 + 1)) \<noteq> (500::real) \<and>
   map_option bpm (vm_timer (changeBpm 0 1
      \<lparr>vm_bpm = 500, vm_timeSignature = ''4/4'', vm_timer = Some (MetronomeTimer_new 500 4),
      stored_bpm = Some 500, stored_timeSignature = None\<rparr>)) = Some 150 \<and>
   map_option intervalMs (vm_timer (changeBpm 0 1
      \<lparr>vm_bpm = 500, vm_timeSignature = ''4/4'', vm_timer = Some (MetronomeTimer_new 500 4),
      stored_bpm = Some 500, stored_timeSignature = None\<rparr>)) = Some 400"
proof -
  have nz: "(150::real) \<noteq> 0" by simp
  have h1: "vm_timer \<lparr>vm_bpm = 500, vm_timeSignature = ''4/4'',
      vm_timer = Some (MetronomeTimer_new 500 4),
      stored_bpm = Some 500, stored_timeSignature = None\<rparr> = Some (MetronomeTimer_new 500 4)"
    by simp
  have h2: "max 20 (min 150 (500 + 1)) \<noteq> (500::real)" by simp
  note t = changeBpm_clamps[of 0 150 "MetronomeTimer_new 500 4" 1
      "\<lparr>vm_bpm = 500, vm_timeSignature = ''4/4'', vm_timer = Some (MetronomeTimer_new 500 4),
      stored_bpm = Some 500, stored_timeSignature = None\<rparr>"]
  have i: "intervalMs (updateBPM 0 150 (MetronomeTimer_new 500 4)) = 400"
    using t[THEN conjunct2, THEN conjunct1, THEN mp, OF nz] by simp
  have c: "map_option bpm (vm_timer (changeBpm 0 1
      \<lparr>vm_bpm = 500, vm_timeSignature = ''4/4'', vm_timer = Some (MetronomeTimer_new 500 4),
      stored_bpm = Some 500, stored_timeSignature = None\<rparr>)) = Some 150 \<and>
     map_option intervalMs (vm_timer (changeBpm 0 1
      \<lparr>vm_bpm = 500, vm_timeSignature = ''4/4'', vm_timer = Some (MetronomeTimer_new 500 4),
      stored_bpm = Some 500, stored_timeSignature = None\<rparr>)) = Some 400"
    using t h1 h2 by simp
  from c have c1: "map_option bpm (vm_timer (changeBpm 0 1
      \<lparr>vm_bpm = 500, vm_timeSignature = ''4/4'', vm_timer = Some (MetronomeTimer_new 500 4),
      stored_bpm = Some 500, stored_timeSignature = None\<rparr>)) = Some 150"
    by (rule conjunct1)
  from c have c2: "map_option intervalMs (vm_timer (changeBpm 0 1
      \<lparr>vm_bpm = 500, vm_timeSignature = ''4/4'', vm_timer = Some (MetronomeTimer_new 500 4),
      stored_bpm = Some 500, stored_timeSignature = None\<rparr>)) = Some 400"
    by (rule conjunct2)
  show ?thesis by (intro conjI) (rule nz i h1 h2 c1 c2)+
qed

text \<open>\<open>updateBPM(500)\<close> on a timer at tempo 60 leaves the tempo at 500.\<close>

theorem updateBPM_does_not_clamp:
  "\<not> (20 \<le> bpm (updateBPM 0 500 (MetronomeTimer_new 60 4)) \<and>
      bpm (updateBPM 0 500 (MetronomeTimer_new 60 4)) \<le> 150)"
  by (simp add: updateBPM_def MetronomeTimer_new_def Let_def)

end
